theory Spec2Isabelle
  imports Complex_Main
begin

section \<open>Numbers\<close>

text \<open>
  The program computes with Python floats and Python (unbounded) integers. Floats are
  idealised as reals here: a product or a sum is the exact one, and nothing overflows.
  Every concrete input used below has dyadic values whose float computation is exact, so
  the concrete evaluations are also what the interpreter computes.

  \<open>int(x)\<close> on a float truncates toward zero; \<open>round(x)\<close> rounds to the nearest integer
  and sends a tie to the even neighbour.
\<close>

definition py_int :: "real \<Rightarrow> int" where
  "py_int x = (if 0 \<le> x then \<lfloor>x\<rfloor> else \<lceil>x\<rceil>)"

definition py_round :: "real \<Rightarrow> int" where
  "py_round x =
     (let f = \<lfloor>x\<rfloor>; d = x - real_of_int f
      in if d < 1 / 2 then f
         else if 1 / 2 < d then f + 1
         else if even f then f else f + 1)"

section \<open>Images, errors and the outside world\<close>

text \<open>
  A raster image of the imaging library: the program reads only its \<open>width\<close> and
  \<open>height\<close>; \<open>content\<close> stands for the pixels, which it never inspects.
\<close>

record image =
  width :: nat
  height :: nat
  content :: nat

text \<open>
  The image built by \<open>combine_images\<close>: a blank image of a given size and the
  \<open>paste(image, location)\<close> calls made on it, in order. A list cell of the grid may hold
  \<open>None\<close> (the grid of \<open>create_map\<close> starts out filled with \<open>None\<close>).
\<close>

record canvas =
  cwidth :: nat
  cheight :: nat
  pastes :: "(image option \<times> nat \<times> nat) list"

datatype error =
    AssertionError
  | IndexError
  | AttributeError
  | LibraryError string

type_synonym bbox = "int \<times> int \<times> int \<times> int"

text \<open>
  What the program does to the outside world, in order: starting the browser, maximising
  its window, printing and loading a URL (given by the latitude and longitude formatted
  into it), sleeping, grabbing a screen region (recorded with what the grab returned or
  raised), closing and quitting the browser, saving the final image under a name.
\<close>

datatype event =
    Launch
  | Maximize
  | Print real real
  | Get real real
  | Sleep real
  | Grab bbox "error + image option"
  | Close
  | Quit
  | Save string canvas

text \<open>
  The collaborators: file system, browser driver, screen, clock and imaging library.
  Each library call may raise; its answer may depend on everything that happened before
  (the events so far). \<open>parent_writable p\<close> is
  \<open>os.access(os.path.dirname(os.path.abspath(p)), os.W_OK)\<close>; \<open>now\<close> is the formatted
  timestamp; \<open>thumbnail\<close> is the library's in-place \<open>Image.thumbnail\<close>, returning the
  image as it is afterwards.
\<close>

record world =
  path_exists :: "string \<Rightarrow> bool"
  parent_writable :: "string \<Rightarrow> bool"
  chrome :: "event list \<Rightarrow> error option"
  maximize_window :: "event list \<Rightarrow> error option"
  screen_resolution :: "event list \<Rightarrow> error + int \<times> int"
  driver_get :: "event list \<Rightarrow> error option"
  sleep :: "event list \<Rightarrow> error option"
  grab :: "event list \<Rightarrow> bbox \<Rightarrow> error + image option"
  thumbnail :: "image \<Rightarrow> int \<times> int \<Rightarrow> error + image"
  driver_close :: "event list \<Rightarrow> error option"
  driver_quit :: "event list \<Rightarrow> error option"
  now :: "event list \<Rightarrow> string"
  save :: "event list \<Rightarrow> error option"

text \<open>The arguments of \<open>create_map\<close>.\<close>

record args =
  lat_start :: real
  long_start :: real
  number_rows :: int
  number_cols :: int
  scale :: real
  sleep_time :: real
  offset_left :: real
  offset_top :: real
  offset_right :: real
  offset_bottom :: real
  outfile :: "string option"

section \<open>Geometry\<close>

definition calc_latitude_shift :: "int \<Rightarrow> real \<Rightarrow> real" where
  "calc_latitude_shift screen_height percent_hidden =
     - 0.000002051 * real_of_int screen_height * (1 - percent_hidden) * 2.1"

definition calc_longitude_shift :: "int \<Rightarrow> real \<Rightarrow> real" where
  "calc_longitude_shift screen_width percent_hidden =
     0.00000268 * real_of_int screen_width * (1 - percent_hidden) * 2"

text \<open>The bounding box that \<open>screenshot\<close> passes to the grab.\<close>

definition screenshot_bbox :: "int \<Rightarrow> int \<Rightarrow> real \<Rightarrow> real \<Rightarrow> real \<Rightarrow> real \<Rightarrow> bbox" where
  "screenshot_bbox screen_width screen_height ofs_left ofs_top ofs_right ofs_bottom =
     (let x1 = ofs_left * real_of_int screen_width;
          y1 = ofs_top * real_of_int screen_height;
          x2 = (ofs_right * real_of_int (- screen_width)) + real_of_int screen_width;
          y2 = (ofs_bottom * real_of_int (- screen_height)) + real_of_int screen_height
      in (py_int x1, py_int y1, py_int x2, py_int y2))"

section \<open>Stitching\<close>

text \<open>
  The two \<open>enumerate\<close> loops of \<open>combine_images\<close>, with the running indices written
  out. Each step is one \<open>newimage.paste(image, location)\<close>.
\<close>

fun paste_row :: "nat \<Rightarrow> nat \<Rightarrow> nat \<Rightarrow> nat \<Rightarrow> image option list \<Rightarrow> canvas \<Rightarrow> canvas" where
  "paste_row imgwidth imgheight rowindex colindex [] newimage = newimage"
| "paste_row imgwidth imgheight rowindex colindex (img # row) newimage =
     paste_row imgwidth imgheight rowindex (Suc colindex) row
       (newimage\<lparr>pastes := pastes newimage @ [(img, colindex * imgwidth, rowindex * imgheight)]\<rparr>)"

fun paste_rows :: "nat \<Rightarrow> nat \<Rightarrow> nat \<Rightarrow> image option list list \<Rightarrow> canvas \<Rightarrow> canvas" where
  "paste_rows imgwidth imgheight rowindex [] newimage = newimage"
| "paste_rows imgwidth imgheight rowindex (row # rows) newimage =
     paste_rows imgwidth imgheight (Suc rowindex) rows
       (paste_row imgwidth imgheight rowindex 0 row newimage)"

text \<open>
  \<open>images[0][0]\<close> raises \<open>IndexError\<close> on an empty grid or an empty first row, and
  reading \<open>.width\<close> of \<open>None\<close> raises \<open>AttributeError\<close>. There is no other check.
\<close>

definition combine_images :: "image option list list \<Rightarrow> error + canvas" where
  "combine_images images =
     (case images of
        [] \<Rightarrow> Inl IndexError
      | row0 # _ \<Rightarrow>
          (case row0 of
             [] \<Rightarrow> Inl IndexError
           | None # _ \<Rightarrow> Inl AttributeError
           | Some first # _ \<Rightarrow>
               (let imgwidth = width first;
                    imgheight = height first;
                    newimage = \<lparr>cwidth = imgwidth * length row0,
                                cheight = imgheight * length images,
                                pastes = []\<rparr>
                in Inr (paste_rows imgwidth imgheight 0 images newimage))))"

text \<open>The pixels a paste writes: the rectangle of the pasted image at its location.\<close>

definition covers :: "image option \<times> nat \<times> nat \<Rightarrow> nat \<Rightarrow> nat \<Rightarrow> bool" where
  "covers p x y =
     (case p of
        (None, ox, oy) \<Rightarrow> False
      | (Some t, ox, oy) \<Rightarrow> ox \<le> x \<and> x < ox + width t \<and> oy \<le> y \<and> y < oy + height t)"

section \<open>The session\<close>

type_synonym 'a outcome = "(error + 'a) \<times> event list"

definition succeed :: "'a \<Rightarrow> event list \<Rightarrow> 'a outcome" where
  "succeed x tr = (Inr x, tr)"

definition and_then ::
  "(event list \<Rightarrow> 'a outcome) \<Rightarrow> ('a \<Rightarrow> event list \<Rightarrow> 'b outcome) \<Rightarrow> event list \<Rightarrow> 'b outcome" where
  "and_then m f tr = (case m tr of (Inl e, tr') \<Rightarrow> (Inl e, tr') | (Inr x, tr') \<Rightarrow> f x tr')"

text \<open>A library call with an effect: the event is recorded, then the call returns or raises.\<close>

definition call :: "event \<Rightarrow> (event list \<Rightarrow> error option) \<Rightarrow> event list \<Rightarrow> unit outcome" where
  "call ev answer tr =
     ((case answer tr of None \<Rightarrow> Inr () | Some e \<Rightarrow> Inl e), tr @ [ev])"

text \<open>A step that has no effect on the world (it may still raise).\<close>

definition pure_step :: "error + 'a \<Rightarrow> event list \<Rightarrow> 'a outcome" where
  "pure_step r tr = (r, tr)"

definition screenshot ::
  "world \<Rightarrow> int \<Rightarrow> int \<Rightarrow> real \<Rightarrow> real \<Rightarrow> real \<Rightarrow> real \<Rightarrow> event list \<Rightarrow> image option outcome" where
  "screenshot w screen_width screen_height ofs_left ofs_top ofs_right ofs_bottom tr =
     (let b = screenshot_bbox screen_width screen_height ofs_left ofs_top ofs_right ofs_bottom;
          r = grab w tr b
      in (r, tr @ [Grab b r]))"

definition scale_image :: "world \<Rightarrow> image option \<Rightarrow> real \<Rightarrow> error + image option" where
  "scale_image w img factor =
     (case img of
        None \<Rightarrow> Inl AttributeError
      | Some im \<Rightarrow>
          (let width' = py_round (real (width im) * factor);
               height' = py_round (real (height im) * factor)
           in (case thumbnail w im (width', height') of
                 Inl e \<Rightarrow> Inl e
               | Inr im' \<Rightarrow> Inr (Some im'))))"

text \<open>The body of the inner loop of \<open>create_map\<close>, for the cell \<open>(row, col)\<close>.\<close>

definition cell ::
  "world \<Rightarrow> args \<Rightarrow> int \<Rightarrow> int \<Rightarrow> real \<Rightarrow> real \<Rightarrow> nat \<Rightarrow> nat \<Rightarrow>
     image option list list \<Rightarrow> event list \<Rightarrow> image option list list outcome" where
  "cell w a screen_width screen_height lat_shift long_shift row col images =
     (let latitude = lat_start a + (lat_shift * real row);
          longitude = long_start a + (long_shift * real col)
      in and_then (call (Print latitude longitude) (\<lambda>tr. None)) (\<lambda>_.
         and_then (call (Get latitude longitude) (driver_get w)) (\<lambda>_.
         and_then (call (Sleep (sleep_time a)) (sleep w)) (\<lambda>_.
         and_then (screenshot w screen_width screen_height
                     (offset_left a) (offset_top a) (offset_right a) (offset_bottom a)) (\<lambda>img.
         and_then (pure_step (scale_image w img (scale a))) (\<lambda>scaled.
         succeed (images[row := (images ! row)[col := scaled]])))))))"

fun col_loop ::
  "world \<Rightarrow> args \<Rightarrow> int \<Rightarrow> int \<Rightarrow> real \<Rightarrow> real \<Rightarrow> nat \<Rightarrow> nat list \<Rightarrow>
     image option list list \<Rightarrow> event list \<Rightarrow> image option list list outcome" where
  "col_loop w a sw sh lat_shift long_shift row [] images = succeed images"
| "col_loop w a sw sh lat_shift long_shift row (col # cols) images =
     and_then (cell w a sw sh lat_shift long_shift row col images)
       (\<lambda>images'. col_loop w a sw sh lat_shift long_shift row cols images')"

fun row_loop ::
  "world \<Rightarrow> args \<Rightarrow> int \<Rightarrow> int \<Rightarrow> real \<Rightarrow> real \<Rightarrow> nat list \<Rightarrow>
     image option list list \<Rightarrow> event list \<Rightarrow> image option list list outcome" where
  "row_loop w a sw sh lat_shift long_shift [] images = succeed images"
| "row_loop w a sw sh lat_shift long_shift (row # rows) images =
     and_then (col_loop w a sw sh lat_shift long_shift row [0..<nat (number_cols a)] images)
       (\<lambda>images'. row_loop w a sw sh lat_shift long_shift rows images')"

text \<open>\<open>str.upper\<close> on the ASCII letters, and \<open>str.endswith\<close>.\<close>

definition upper_char :: "char \<Rightarrow> char" where
  "upper_char c =
     (let n = (of_char c :: nat) in if 97 \<le> n \<and> n \<le> 122 then char_of (n - 32) else c)"

definition upper :: "string \<Rightarrow> string" where
  "upper s = map upper_char s"

definition endswith :: "string \<Rightarrow> string \<Rightarrow> bool" where
  "endswith s suffix = (length suffix \<le> length s \<and> drop (length s - length suffix) s = suffix)"

text \<open>The three assertions on a given output path.\<close>

definition check_outfile :: "world \<Rightarrow> string \<Rightarrow> error + unit" where
  "check_outfile w p =
     (if path_exists w p then Inl AssertionError
      else if \<not> parent_writable w p then Inl AssertionError
      else if \<not> endswith (upper p) ''.PNG'' then Inl AssertionError
      else Inr ())"

text \<open>
  From the start of the browser to the end of the grid loop: the grid of \<open>None\<close>, the
  screen resolution, the two shifts, and the loop over the cells.
\<close>

definition capture_grid :: "world \<Rightarrow> args \<Rightarrow> event list \<Rightarrow> image option list list outcome" where
  "capture_grid w a =
     and_then (call Launch (chrome w)) (\<lambda>_.
     and_then (call Maximize (maximize_window w)) (\<lambda>_.
     (let images = replicate (nat (number_rows a)) (replicate (nat (number_cols a)) None)
      in and_then (\<lambda>tr. pure_step (screen_resolution w tr) tr) (\<lambda>(screen_width, screen_height).
         (let lat_shift = calc_latitude_shift screen_height (offset_top a + offset_bottom a);
              long_shift = calc_longitude_shift screen_width (offset_left a + offset_right a)
          in row_loop w a screen_width screen_height lat_shift long_shift
               [0..<nat (number_rows a)] images)))))"

text \<open>After the loop: release the browser, stitch, choose the name, save.\<close>

definition finish :: "world \<Rightarrow> args \<Rightarrow> image option list list \<Rightarrow> event list \<Rightarrow> unit outcome" where
  "finish w a images =
     and_then (call Close (driver_close w)) (\<lambda>_.
     and_then (call Quit (driver_quit w)) (\<lambda>_.
     and_then (pure_step (combine_images images)) (\<lambda>final tr.
       (let name = (case outfile a of
                      None \<Rightarrow> ''testimg-'' @ now w tr @ ''.png''
                    | Some p \<Rightarrow> if p \<noteq> [] then p else ''testimg-'' @ now w tr @ ''.png'')
        in call (Save name final) (save w) tr))))"

definition create_map :: "world \<Rightarrow> args \<Rightarrow> unit outcome" where
  "create_map w a =
     (case (case outfile a of
              None \<Rightarrow> Inr ()
            | Some p \<Rightarrow> if p \<noteq> [] then check_outfile w p else Inr ()) of
        Inl e \<Rightarrow> (Inl e, [])
      | Inr _ \<Rightarrow> and_then (capture_grid w a) (finish w a) [])"

text \<open>The coordinates the browser was sent to, in order.\<close>

fun visited :: "event list \<Rightarrow> (real \<times> real) list" where
  "visited [] = []"
| "visited (Get la lo # tr) = (la, lo) # visited tr"
| "visited (_ # tr) = visited tr"

section \<open>Vocabulary of the properties\<close>

text \<open>
  The paste calls of one row and of a whole grid, when every image is pasted at the
  multiple of \<open>iw\<close> and \<open>ih\<close> that its column and row give.
\<close>

definition row_pastes :: "nat \<Rightarrow> nat \<Rightarrow> nat \<Rightarrow> image option list \<Rightarrow> (image option \<times> nat \<times> nat) list" where
  "row_pastes iw ih r row = map (\<lambda>c. (row ! c, c * iw, r * ih)) [0..<length row]"

definition grid_pastes :: "nat \<Rightarrow> nat \<Rightarrow> image option list list \<Rightarrow> (image option \<times> nat \<times> nat) list" where
  "grid_pastes iw ih images =
     concat (map (\<lambda>r. row_pastes iw ih r (images ! r)) [0..<length images])"

text \<open>
  A grid of \<open>cols\<close> columns whose cells all hold an image of width \<open>tw\<close> and height
  \<open>th\<close>.
\<close>

definition uniform :: "nat \<Rightarrow> nat \<Rightarrow> nat \<Rightarrow> image option list list \<Rightarrow> bool" where
  "uniform cols tw th images =
     (\<forall>row \<in> set images. length row = cols \<and>
        (\<forall>t \<in> set row. \<exists>im. t = Some im \<and> width im = tw \<and> height im = th))"

text \<open>Concrete tiles and grids.\<close>

definition tile :: "nat \<Rightarrow> nat \<Rightarrow> nat \<Rightarrow> image option" where
  "tile w h k = Some \<lparr>width = w, height = h, content = k\<rparr>"

definition grid_2x3 :: "image option list list" where
  "grid_2x3 = [[tile 100 50 0, tile 100 50 1, tile 100 50 2],
               [tile 100 50 3, tile 100 50 4, tile 100 50 5]]"



section \<open>Geometry: the shifts and the bounding box\<close>

text \<open>
  Claim C7. For a positive screen height and a hidden fraction in \<open>[0,1)\<close> the latitude
  shift is strictly negative, and it strictly decreases as the height grows; for a
  positive screen width and a hidden fraction in \<open>[0,1)\<close> the longitude shift is strictly
  positive, and it strictly increases as the width grows.
\<close>

theorem shifts_sign_and_monotone:
  assumes "0 \<le> p" "p < 1" "0 < h" "h < h'"
    and "0 \<le> q" "q < 1" "0 < sw" "sw < sw'"
  shows "calc_latitude_shift h p < 0
       \<and> calc_latitude_shift h' p < calc_latitude_shift h p
       \<and> 0 < calc_longitude_shift sw q
       \<and> calc_longitude_shift sw q < calc_longitude_shift sw' q"
proof -
  have hp: "0 < real_of_int h * (1 - p)" using assms by simp
  have hh: "real_of_int h * (1 - p) < real_of_int h' * (1 - p)" using assms by simp
  have wq: "0 < real_of_int sw * (1 - q)" using assms by simp
  have ww: "real_of_int sw * (1 - q) < real_of_int sw' * (1 - q)" using assms by simp
  have lat: "calc_latitude_shift x p = - (0.000002051 * 2.1) * (real_of_int x * (1 - p))" for x
    by (simp add: calc_latitude_shift_def)
  have lon: "calc_longitude_shift x q = (0.00000268 * 2) * (real_of_int x * (1 - q))" for x
    by (simp add: calc_longitude_shift_def)
  have c1: "(0::real) < 0.000002051 * 2.1" by simp
  have c2: "(0::real) < 0.00000268 * 2" by simp
  have "calc_latitude_shift h p < 0"
    unfolding lat using hp c1 by (simp add: mult_pos_pos)
  moreover have "calc_latitude_shift h' p < calc_latitude_shift h p"
    unfolding lat using hh c1 by simp
  moreover have "0 < calc_longitude_shift sw q"
    unfolding lon using wq c2 by (simp add: mult_pos_pos)
  moreover have "calc_longitude_shift sw q < calc_longitude_shift sw' q"
    unfolding lon using ww c2 by simp
  ultimately show ?thesis by simp
qed

theorem shifts_sign_and_monotone_witness:
  "calc_latitude_shift 1080 (1/4) < 0
     \<and> calc_latitude_shift 1200 (1/4) < calc_latitude_shift 1080 (1/4)
     \<and> 0 < calc_longitude_shift 1920 (1/4)
     \<and> calc_longitude_shift 1920 (1/4) < calc_longitude_shift 2560 (1/4)"
  using shifts_sign_and_monotone [of "1/4" 1080 1200 "1/4" 1920 2560] by simp





section \<open>Stitching\<close>

lemma paste_row_eq:
  "paste_row iw ih r c row cv =
     cv\<lparr>pastes := pastes cv @ map (\<lambda>i. (row ! i, (c + i) * iw, r * ih)) [0..<length row]\<rparr>"
proof (induction row arbitrary: c cv)
  case Nil
  then show ?case by simp
next
  case (Cons img row)
  show ?case
    by (simp add: Cons.IH map_upt_Suc del: upt_Suc)
qed

lemma paste_rows_eq:
  "paste_rows iw ih r rows cv =
     cv\<lparr>pastes := pastes cv @
        concat (map (\<lambda>i. row_pastes iw ih (r + i) (rows ! i)) [0..<length rows])\<rparr>"
proof (induction rows arbitrary: r cv)
  case Nil
  then show ?case by simp
next
  case (Cons row rows)
  show ?case
    by (simp add: Cons.IH paste_row_eq row_pastes_def map_upt_Suc del: upt_Suc)
qed

lemma combine_images_eq:
  assumes "images = (Some first # row0) # rest"
  shows "combine_images images =
           Inr \<lparr>cwidth = width first * length (hd images),
                cheight = height first * length images,
                pastes = grid_pastes (width first) (height first) images\<rparr>"
  using assms by (simp add: combine_images_def paste_rows_eq grid_pastes_def Let_def del: upt_Suc)

lemma count_interval:
  "length (filter (\<lambda>c. c * w \<le> x \<and> x < c * w + w) [0..<n]) = (if x < n * w then 1 else 0)"
proof (induction n)
  case 0
  then show ?case by simp
next
  case (Suc n)
  then show ?case by (auto simp: not_less)
qed

lemma uniform_length:
  assumes "uniform cols tw th images" "r < length images"
  shows "length (images ! r) = cols"
  using assms by (simp add: uniform_def)

lemma uniform_nth:
  assumes "uniform cols tw th images" "r < length images" "c < cols"
  shows "\<exists>im. images ! r ! c = Some im \<and> width im = tw \<and> height im = th"
proof -
  have row: "images ! r \<in> set images" using assms(2) by simp
  have "length (images ! r) = cols" using assms(1,2) by (rule uniform_length)
  then have "images ! r ! c \<in> set (images ! r)" using assms(3) by simp
  with assms(1) row show ?thesis
    unfolding uniform_def by blast
qed

lemma covers_uniform_row:
  assumes "uniform cols tw th images" "r < length images"
  shows "length (filter (\<lambda>p. covers p x y) (row_pastes tw th r (images ! r))) =
           (if r * th \<le> y \<and> y < r * th + th then (if x < cols * tw then 1 else 0) else 0)"
proof -
  have len: "length (images ! r) = cols" using assms by (rule uniform_length)
  have "filter ((\<lambda>p. covers p x y) \<circ> (\<lambda>c. (images ! r ! c, c * tw, r * th))) [0..<cols] =
        filter (\<lambda>c. (c * tw \<le> x \<and> x < c * tw + tw) \<and> (r * th \<le> y \<and> y < r * th + th)) [0..<cols]"
  proof (rule filter_cong[OF refl])
    fix c assume "c \<in> set [0..<cols]"
    then have "c < cols" by simp
    from uniform_nth[OF assms this]
    obtain im where "images ! r ! c = Some im" "width im = tw" "height im = th"
      by blast
    then show "((\<lambda>p. covers p x y) \<circ> (\<lambda>c. (images ! r ! c, c * tw, r * th))) c =
        ((c * tw \<le> x \<and> x < c * tw + tw) \<and> (r * th \<le> y \<and> y < r * th + th))"
      by (simp add: covers_def)
  qed
  then have "length (filter (\<lambda>p. covers p x y) (row_pastes tw th r (images ! r))) =
      length (filter (\<lambda>c. (c * tw \<le> x \<and> x < c * tw + tw) \<and> (r * th \<le> y \<and> y < r * th + th)) [0..<cols])"
    by (simp add: row_pastes_def len)
  also have "\<dots> = (if r * th \<le> y \<and> y < r * th + th then (if x < cols * tw then 1 else 0) else 0)"
    using count_interval[of tw x cols] by simp
  finally show ?thesis .
qed

lemma sum_list_indicator:
  "sum_list (map (\<lambda>r. if Q r then k else 0) rs) = k * length (filter Q rs)" for k :: nat
  by (induction rs) simp_all

lemma covers_uniform_grid:
  assumes "uniform cols tw th images" "x < cols * tw" "y < length images * th"
  shows "length (filter (\<lambda>p. covers p x y) (grid_pastes tw th images)) = 1"
proof -
  have "length (filter (\<lambda>p. covers p x y) (grid_pastes tw th images)) =
        sum_list (map (\<lambda>r. length (filter (\<lambda>p. covers p x y) (row_pastes tw th r (images ! r))))
                   [0..<length images])"
    by (simp add: grid_pastes_def filter_concat length_concat comp_def)
  also have "\<dots> = sum_list (map (\<lambda>r. if r * th \<le> y \<and> y < r * th + th then 1 else 0) [0..<length images])"
  proof (rule arg_cong[where f = sum_list], rule map_cong[OF refl])
    fix r assume "r \<in> set [0..<length images]"
    then have "r < length images" by simp
    then show "length (filter (\<lambda>p. covers p x y) (row_pastes tw th r (images ! r))) =
        (if r * th \<le> y \<and> y < r * th + th then 1 else 0)"
      using covers_uniform_row[OF assms(1)] assms(2) by simp
  qed
  also have "\<dots> = length (filter (\<lambda>r. r * th \<le> y \<and> y < r * th + th) [0..<length images])"
    using sum_list_indicator[of "\<lambda>r. r * th \<le> y \<and> y < r * th + th" 1 "[0..<length images]"] by simp
  also have "\<dots> = 1"
    using count_interval[of th y "length images"] assms(3) by simp
  finally show ?thesis .
qed


lemma grid_pastes_rect:
  assumes "\<forall>row \<in> set images. length row = cols"
  shows "grid_pastes iw ih images =
           concat (map (\<lambda>r. map (\<lambda>c. (images ! r ! c, c * iw, r * ih)) [0..<cols])
                    [0..<length images])"
proof -
  have "map (\<lambda>r. row_pastes iw ih r (images ! r)) [0..<length images] =
        map (\<lambda>r. map (\<lambda>c. (images ! r ! c, c * iw, r * ih)) [0..<cols]) [0..<length images]"
  proof (rule map_cong[OF refl])
    fix r assume "r \<in> set [0..<length images]"
    then have "images ! r \<in> set images" by simp
    with assms have "length (images ! r) = cols" by blast
    then show "row_pastes iw ih r (images ! r) =
                 map (\<lambda>c. (images ! r ! c, c * iw, r * ih)) [0..<cols]"
      by (simp add: row_pastes_def)
  qed
  then show ?thesis unfolding grid_pastes_def by (rule arg_cong[where f = concat])
qed


lemma uniform_first:
  assumes "images \<noteq> []" "0 < cols" "uniform cols tw th images"
  shows "\<exists>first row0 rest. images = (Some first # row0) # rest \<and> width first = tw \<and> height first = th"
proof -
  obtain row rest where im: "images = row # rest" using assms(1) by (cases images) auto
  then have len: "length row = cols" using assms(3) by (simp add: uniform_def)
  then obtain t row0 where row: "row = t # row0" using assms(2) by (cases row) auto
  have "\<exists>f. t = Some f \<and> width f = tw \<and> height f = th"
    using assms(3) im row by (simp add: uniform_def)
  then show ?thesis using im row by blast
qed

text \<open>
  Claim C6. On a grid of \<open>rows \<times> cols\<close> tiles that all have width \<open>tw\<close> and height
  \<open>th\<close>, \<open>combine_images\<close> returns an image of size \<open>(tw\<cdot>cols, th\<cdot>rows)\<close>; the tile of
  grid position \<open>(r, c)\<close> is pasted, as it is, at \<open>(c\<cdot>tw, r\<cdot>th)\<close>; and every pixel of the
  result is written by exactly one paste (no overlap, no gap).
\<close>

theorem combine_images_uniform_tiling:
  assumes "images \<noteq> []" and "0 < cols" and "uniform cols tw th images"
  shows "\<exists>final. combine_images images = Inr final
           \<and> cwidth final = tw * cols \<and> cheight final = th * length images
           \<and> pastes final =
               concat (map (\<lambda>r. map (\<lambda>c. (images ! r ! c, c * tw, r * th)) [0..<cols])
                        [0..<length images])
           \<and> (\<forall>x y. x < tw * cols \<and> y < th * length images \<longrightarrow>
                 length (filter (\<lambda>p. covers p x y) (pastes final)) = 1)"
proof -
  from uniform_first[OF assms] obtain first row0 rest
    where im: "images = (Some first # row0) # rest" and wh: "width first = tw" "height first = th"
    by blast
  have rect: "\<forall>row \<in> set images. length row = cols" using assms(3) by (simp add: uniform_def)
  have hd: "length (hd images) = cols" using rect im by simp
  let ?final = "\<lparr>cwidth = tw * cols, cheight = th * length images,
                 pastes = grid_pastes tw th images\<rparr>"
  have res: "combine_images images = Inr ?final"
    using combine_images_eq[OF im] wh hd by simp
  have cover: "length (filter (\<lambda>p. covers p x y) (pastes ?final)) = 1"
    if "x < tw * cols \<and> y < th * length images" for x y
    using covers_uniform_grid[OF assms(3), of x y] that by (simp add: mult.commute)
  have "pastes ?final =
          concat (map (\<lambda>r. map (\<lambda>c. (images ! r ! c, c * tw, r * th)) [0..<cols])
                   [0..<length images])"
    using grid_pastes_rect[OF rect] by simp
  with res cover show ?thesis by (intro exI[of _ ?final]) simp
qed

text \<open>
  The 2 by 3 grid of 100 by 50 tiles: a 300 by 100 image, tile \<open>(0,0)\<close> at \<open>(0,0)\<close> and
  tile \<open>(1,2)\<close> at \<open>(200,50)\<close>.
\<close>

theorem combine_images_uniform_tiling_witness:
  "\<exists>final. combine_images grid_2x3 = Inr final
      \<and> cwidth final = 300 \<and> cheight final = 100
      \<and> pastes final =
          [(tile 100 50 0, 0, 0), (tile 100 50 1, 100, 0), (tile 100 50 2, 200, 0),
           (tile 100 50 3, 0, 50), (tile 100 50 4, 100, 50), (tile 100 50 5, 200, 50)]
      \<and> length (filter (\<lambda>p. covers p 250 75) (pastes final)) = 1"
proof -
  have ne: "grid_2x3 \<noteq> []" by (simp add: grid_2x3_def)
  have un: "uniform 3 100 50 grid_2x3" by (simp add: uniform_def grid_2x3_def tile_def)
  have up: "[0..<3] = [0, 1, 2]" "[0..<2] = [0, 1]" by (simp_all add: upt_rec)
  from combine_images_uniform_tiling[OF ne _ un] obtain final where
    f: "combine_images grid_2x3 = Inr final" "cwidth final = 100 * 3"
       "cheight final = 50 * length grid_2x3"
       "pastes final = concat (map (\<lambda>r. map (\<lambda>c. (grid_2x3 ! r ! c, c * 100, r * 50)) [0..<3])
                        [0..<length grid_2x3])"
       "\<forall>x y. x < 100 * 3 \<and> y < 50 * length grid_2x3 \<longrightarrow>
                 length (filter (\<lambda>p. covers p x y) (pastes final)) = 1"
    by auto
  have len: "length grid_2x3 = 2" by (simp add: grid_2x3_def)
  have "pastes final =
          [(tile 100 50 0, 0, 0), (tile 100 50 1, 100, 0), (tile 100 50 2, 200, 0),
           (tile 100 50 3, 0, 50), (tile 100 50 4, 100, 50), (tile 100 50 5, 200, 50)]"
    unfolding f(4) len up by (simp add: grid_2x3_def)
  moreover have "length (filter (\<lambda>p. covers p 250 75) (pastes final)) = 1"
    using f(5) len by simp
  ultimately show ?thesis using f(1,2,3) len by simp
qed






end
